theory Spec2Isabelle
  imports Main
begin

section \<open>JavaScript values used by extension.ts\<close>

text \<open>
  A JavaScript string is modelled as a \<^typ>\<open>string\<close>, one \<^typ>\<open>char\<close> per code unit
  (code units below 256). A configuration value that may be \<^verbatim>\<open>undefined\<close> is an
  option, \<^term>\<open>None\<close> standing for \<^verbatim>\<open>undefined\<close> (or \<^verbatim>\<open>null\<close>).
\<close>

datatype error = TypeError

text \<open>Truthiness of a boolean setting: \<^verbatim>\<open>undefined\<close> and \<^verbatim>\<open>false\<close> are falsy.\<close>

fun truthy :: "bool option \<Rightarrow> bool" where
  "truthy None = False"
| "truthy (Some b) = b"

text \<open>Truthiness of a string value: \<^verbatim>\<open>undefined\<close> and the empty string are falsy.\<close>

fun truthyStr :: "string option \<Rightarrow> bool" where
  "truthyStr None = False"
| "truthyStr (Some s) = (s \<noteq> [])"

text \<open>\<^verbatim>\<open>v || d\<close> for a string value \<^verbatim>\<open>v\<close> and a string literal \<^verbatim>\<open>d\<close>.\<close>

fun orDefault :: "string option \<Rightarrow> string \<Rightarrow> string" where
  "orDefault None d = d"
| "orDefault (Some s) d = (if s = [] then d else s)"

text \<open>
  \<^verbatim>\<open>String.prototype.trim\<close> strips white space and line terminators from both ends.
  Among the code units below 256 these are TAB, LF, VT, FF, CR, SP and NBSP.
\<close>

definition isWhiteSpace :: "char \<Rightarrow> bool" where
  "isWhiteSpace c = ((of_char c :: nat) \<in> {9, 10, 11, 12, 13, 32, 160})"

definition trim :: "string \<Rightarrow> string" where
  "trim s = rev (dropWhile isWhiteSpace (rev (dropWhile isWhiteSpace s)))"

text \<open>\<^verbatim>\<open>s.endsWith(t)\<close>.\<close>

definition endsWith :: "string \<Rightarrow> string \<Rightarrow> bool" where
  "endsWith s t = (length t \<le> length s \<and> drop (length s - length t) s = t)"

text \<open>\<^verbatim>\<open>s.includes(t)\<close>: \<^verbatim>\<open>t\<close> occurs somewhere in \<^verbatim>\<open>s\<close>.\<close>

fun includesStr :: "string \<Rightarrow> string \<Rightarrow> bool" where
  "includesStr [] t = (t = [])"
| "includesStr (c # cs) t = (take (length t) (c # cs) = t \<or> includesStr cs t)"

text \<open>\<^verbatim>\<open>parts.join(sep)\<close>.\<close>

fun join :: "string \<Rightarrow> string list \<Rightarrow> string" where
  "join sep [] = []"
| "join sep [x] = x"
| "join sep (x # y # ys) = x @ sep @ join sep (y # ys)"

section \<open>The command builder (startLanguageServer, lines 60 to 85)\<close>

text \<open>The object returned by \<^verbatim>\<open>vscode.workspace.getConfiguration('sorbet')\<close>.\<close>

record config =
  commandPath :: "string option"
  useBundler :: "bool option"
  useWatchman :: "bool option"
  bundlerPath :: "string option"
  commandOptions :: "string option"

text \<open>
  Line 67: \<^verbatim>\<open>vsconfig.commandOptions.trim()\<close>. Calling a method on \<^verbatim>\<open>undefined\<close>
  throws a TypeError.
\<close>

fun trimOptions :: "string option \<Rightarrow> error + string" where
  "trimOptions None = Inl TypeError"
| "trimOptions (Some s) = Inr (trim s)"

text \<open>Lines 69 to 73: the program prefix.\<close>

definition launchPrefix :: "config \<Rightarrow> string list" where
  "launchPrefix cfg =
     (if truthy (useBundler cfg)
      then [] @ [orDefault (bundlerPath cfg) ''bundle'', ''exec'', ''srb'']
      else [] @ [orDefault (commandPath cfg) ''srb''])"

text \<open>Lines 77 to 81: the option token.\<close>

definition optionToken :: "string \<Rightarrow> string" where
  "optionToken opts =
     (if opts \<noteq> [] then opts else ''--enable-all-experimental-lsp-features'')"

text \<open>Lines 83 to 85: the watchman flag.\<close>

definition watchmanTokens :: "config \<Rightarrow> string list" where
  "watchmanTokens cfg = (if \<not> truthy (useWatchman cfg) then [''--disable-watchman''] else [])"

text \<open>
  Lines 60 to 85. The settings are read first (line 67 may throw), then the array is
  filled in order.
\<close>

definition buildCommand :: "config \<Rightarrow> error + string list" where
  "buildCommand cfg =
     (case trimOptions (commandOptions cfg) of
        Inl e \<Rightarrow> Inl e
      | Inr opts \<Rightarrow>
          Inr (((launchPrefix cfg @ [''tc'', ''--lsp'']) @ [optionToken opts])
                 @ watchmanTokens cfg))"

section \<open>The spawner (commonOptions and spawnWithBash, lines 25 to 54)\<close>

text \<open>
  The options object: \<^verbatim>\<open>cwd\<close> as set by \<^verbatim>\<open>commonOptions\<close>, and \<^verbatim>\<open>shell\<close> as line 47
  sets it. \<^term>\<open>None\<close> stands for a key the object does not have.
\<close>

record spawn_options =
  opt_shell :: "string option"
  opt_cwd :: "string option"

text \<open>Lines 25 to 31; the argument is a path or \<^verbatim>\<open>null\<close>.\<close>

definition commonOptions :: "string option \<Rightarrow> spawn_options" where
  "commonOptions workspace =
     (if truthyStr workspace
      then \<lparr>opt_shell = None, opt_cwd = workspace\<rparr>
      else \<lparr>opt_shell = None, opt_cwd = None\<rparr>)"

text \<open>
  What the spawner asks of the operating system: a call of \<^verbatim>\<open>child_process.spawn\<close>
  or of \<^verbatim>\<open>crossSpawn\<close>, with program, arguments and options. The program of
  \<^verbatim>\<open>crossSpawn\<close> is the result of \<^verbatim>\<open>cmd.shift()\<close>, which is \<^verbatim>\<open>undefined\<close> on an
  empty array.
\<close>

datatype spawn_call =
    ChildProcessSpawn string "string list" spawn_options
  | CrossSpawn "string option" "string list" spawn_options

text \<open>
  Modelled from the spec: the package shell-escape is imported by extension.ts and is
  not part of the sources. The spec describes it as shell-quoting every token and
  concatenating with spaces; the quoting of one token is the parameter \<open>quote\<close>.
\<close>

definition shellEscape :: "(string \<Rightarrow> string) \<Rightarrow> string list \<Rightarrow> string" where
  "shellEscape quote a = join '' '' (map quote a)"

text \<open>Line 34: \<^verbatim>\<open>platform().match(/darwin|linux/)\<close>.\<close>

definition matchesDarwinOrLinux :: "string \<Rightarrow> bool" where
  "matchesDarwinOrLinux p = (includesStr p ''darwin'' \<or> includesStr p ''linux'')"

text \<open>Line 38: \<^verbatim>\<open>env.shell || '/bin/bash'\<close>.\<close>

definition resolveShell :: "string option \<Rightarrow> string" where
  "resolveShell envShell = orDefault envShell ''/bin/bash''"

text \<open>Lines 40 to 43.\<close>

definition shellCommand :: "(string \<Rightarrow> string) \<Rightarrow> string list \<Rightarrow> spawn_options \<Rightarrow> string" where
  "shellCommand quote cmd opts =
     (let shellCmd = shellEscape quote cmd in
      case opt_cwd opts of
        None \<Rightarrow> shellCmd
      | Some dir \<Rightarrow>
          (if dir \<noteq> [] then shellEscape quote [''cd'', dir] @ '' && '' @ shellCmd
           else shellCmd))"

text \<open>\<^verbatim>\<open>cmd.shift()\<close>: the removed first element and the array afterwards.\<close>

fun shift :: "string list \<Rightarrow> string option \<times> string list" where
  "shift [] = (None, [])"
| "shift (x # xs) = (Some x, xs)"

text \<open>Lines 49 and 52: the first argument is evaluated, and mutates \<^verbatim>\<open>cmd\<close>, before the second.\<close>

definition directSpawn :: "string list \<Rightarrow> spawn_options \<Rightarrow> spawn_call \<times> string list" where
  "directSpawn cmd opts = (case shift cmd of (prog, cmd') \<Rightarrow> (CrossSpawn prog cmd' opts, cmd'))"

text \<open>
  Line 47: the object \<^verbatim>\<open>{ shell, ...opts }\<close>. The keys of \<^verbatim>\<open>opts\<close> are spread after
  \<^verbatim>\<open>shell\<close>, so a shell that \<^verbatim>\<open>opts\<close> already has replaces the resolved one.
\<close>

definition shellAndOptions :: "string \<Rightarrow> spawn_options \<Rightarrow> spawn_options" where
  "shellAndOptions shell opts =
     \<lparr>opt_shell = (case opt_shell opts of None \<Rightarrow> Some shell | Some own \<Rightarrow> Some own),
      opt_cwd = opt_cwd opts\<rparr>"

text \<open>
  Lines 33 to 54. The array \<^verbatim>\<open>cmd\<close> is passed by reference: the result is the call made
  and the array as the spawner leaves it.
\<close>

definition spawnWithBash ::
  "(string \<Rightarrow> string) \<Rightarrow> string \<Rightarrow> string option \<Rightarrow> string list \<Rightarrow> spawn_options
     \<Rightarrow> spawn_call \<times> string list" where
  "spawnWithBash quote plat envShell cmd opts =
     (if matchesDarwinOrLinux plat then
        (let shell = resolveShell envShell in
         if endsWith shell ''bash'' \<or> endsWith shell ''zsh'' then
           (let shellCmd = shellCommand quote cmd opts;
                shellArgs = ''-l'' # ''-c'' # [shellCmd]
            in (ChildProcessSpawn shell shellArgs (shellAndOptions shell opts), cmd))
         else directSpawn cmd opts)
      else directSpawn cmd opts)"

text \<open>Lines 100 to 111: the closure handed to the client; it spawns on the captured array.\<close>

definition serverOptions ::
  "(string \<Rightarrow> string) \<Rightarrow> string \<Rightarrow> string option \<Rightarrow> string list \<Rightarrow> spawn_options
     \<Rightarrow> spawn_call \<times> string list" where
  "serverOptions quote plat envShell cmd env = spawnWithBash quote plat envShell cmd env"

section \<open>The connection lifecycle (activate and deactivate, lines 56 to 169)\<close>

text \<open>
  What the extension reads from its host: the settings, the path of the first workspace
  folder (if any), the files that exist, the operating system name and the preferred shell.
\<close>

record host =
  settings :: config
  workspaceFolder :: "string option"
  files :: "string list"
  osPlatform :: string
  envShell :: "string option"

text \<open>
  The calls the extension makes on its collaborators are recorded in order, as a test
  double would. A language client is named by the number of clients constructed before it.
  \<^item> \<open>Notice\<close>: a message shown by \<^verbatim>\<open>vscode.window\<close>, with its severity;
  \<^item> \<open>ClientNew\<close>, \<open>ClientStart\<close>: \<^verbatim>\<open>new LanguageClient\<close> and \<^verbatim>\<open>client.start()\<close>;
  \<^item> \<open>Spawn\<close>: the client runs its server options, which spawn the child process;
  \<^item> \<open>StopRequested\<close>, \<open>StopCompleted\<close>: \<^verbatim>\<open>client.stop()\<close> is called; its promise is fulfilled;
  \<^item> \<open>Disposed\<close>: \<^verbatim>\<open>dispose()\<close> on the disposable that \<^verbatim>\<open>start()\<close> of that client returned;
  \<^item> \<open>RestartResolved\<close>, \<open>DeactivateResolved\<close>: the promise of a restart, or the one
    returned by deactivate, is fulfilled;
  \<^item> \<open>Rejected\<close>: an exception ends a promise callback or executor.
\<close>

datatype severity = Information | Warning | Error

datatype event =
    Notice severity string
  | ClientNew nat
  | ClientStart nat
  | Spawn nat spawn_call
  | StopRequested nat
  | StopCompleted nat
  | Disposed nat
  | RestartResolved
  | DeactivateResolved
  | Rejected error

text \<open>What waits for the promise of a \<^verbatim>\<open>client.stop()\<close>.\<close>

datatype callback = RestartThen | DeactivateAwait

text \<open>
  The variables \<^verbatim>\<open>client\<close> (line 23) and \<^verbatim>\<open>disposableClient\<close> (line 57), the number of
  clients constructed, the stop promises not yet fulfilled, and the record of calls.
\<close>

record ext_state =
  client :: "nat option"
  disposableClient :: "nat option"
  clientsCreated :: nat
  pendingStops :: "(nat \<times> callback) list"
  trace :: "event list"

definition initialState :: ext_state where
  "initialState =
     \<lparr>client = None, disposableClient = None, clientsCreated = 0, pendingStops = [], trace = []\<rparr>"

definition emit :: "event list \<Rightarrow> ext_state \<Rightarrow> ext_state" where
  "emit evs s = s\<lparr>trace := trace s @ evs\<rparr>"

definition showInformationMessage :: "string \<Rightarrow> ext_state \<Rightarrow> ext_state" where
  "showInformationMessage msg s = emit [Notice Information msg] s"

text \<open>A template literal prints \<^verbatim>\<open>null\<close> as the word null.\<close>

fun templateStr :: "string option \<Rightarrow> string" where
  "templateStr None = ''null''"
| "templateStr (Some s) = s"

definition existsSync :: "host \<Rightarrow> string \<Rightarrow> bool" where
  "existsSync h p = (p \<in> set (files h))"

text \<open>Line 89: the path of the project marker file.\<close>

definition markerPath :: "host \<Rightarrow> string" where
  "markerPath h = templateStr (workspaceFolder h) @ ''/sorbet/config''"

text \<open>
  Lines 127 to 135: the client is constructed and stored, then started; starting it
  launches the server through the server options, and returns the disposable.
\<close>

definition launchClient ::
  "(string \<Rightarrow> string) \<Rightarrow> host \<Rightarrow> string list \<Rightarrow> spawn_options \<Rightarrow> ext_state \<Rightarrow> ext_state" where
  "launchClient quote h cmd env s =
     (let n = clientsCreated s;
          s1 = emit [ClientNew n] (s\<lparr>client := Some n, clientsCreated := Suc n\<rparr>);
          child = fst (serverOptions quote (osPlatform h) (envShell h) cmd env);
          s2 = emit [ClientStart n, Spawn n child] s1
      in s2\<lparr>disposableClient := Some n\<rparr>)"

text \<open>Lines 59 to 136. An exception of line 67 leaves the function before any effect.\<close>

definition startLanguageServer ::
  "(string \<Rightarrow> string) \<Rightarrow> host \<Rightarrow> ext_state \<Rightarrow> error + ext_state" where
  "startLanguageServer quote h s =
     (case buildCommand (settings h) of
        Inl e \<Rightarrow> Inl e
      | Inr cmd \<Rightarrow>
          let firstWorkspace = workspaceFolder h in
          if \<not> existsSync h (markerPath h) then
            Inr (showInformationMessage
                   ''Sorbet config not found. Sorbet server will not be started'' s)
          else
            let env = commonOptions firstWorkspace
            in Inr (launchClient quote h cmd env s))"

text \<open>\<^verbatim>\<open>client.stop()\<close>: the handshake is requested; its promise is fulfilled later.\<close>

definition clientStop :: "nat \<Rightarrow> callback \<Rightarrow> ext_state \<Rightarrow> ext_state" where
  "clientStop c cb s = emit [StopRequested c] (s\<lparr>pendingStops := pendingStops s @ [(c, cb)]\<rparr>)"

text \<open>
  \<^verbatim>\<open>resolve()\<close> of lines 144 and 148 fulfils the promise of the restart; the callback of
  the command (lines 155 to 157) then shows the notice.
\<close>

definition resolveRestart :: "ext_state \<Rightarrow> ext_state" where
  "resolveRestart s = showInformationMessage ''Sorbet server restarted.'' (emit [RestartResolved] s)"

text \<open>Lines 142 to 144: the callback that runs once the stop promise is fulfilled.\<close>

definition restartThen :: "(string \<Rightarrow> string) \<Rightarrow> host \<Rightarrow> ext_state \<Rightarrow> ext_state" where
  "restartThen quote h s =
     (case disposableClient s of
        None \<Rightarrow> emit [Rejected TypeError] s
      | Some d \<Rightarrow>
          (let s1 = emit [Disposed d] s in
           (case startLanguageServer quote h s1 of
              Inl e \<Rightarrow> emit [Rejected e] s1
            | Inr s2 \<Rightarrow> resolveRestart s2)))"

text \<open>Lines 138 to 151, as called by the restart command.\<close>

definition restartLanguageServer :: "(string \<Rightarrow> string) \<Rightarrow> host \<Rightarrow> ext_state \<Rightarrow> ext_state" where
  "restartLanguageServer quote h s =
     (case disposableClient s of
        Some d \<Rightarrow>
          (case client s of
             None \<Rightarrow> emit [Rejected TypeError] s
           | Some c \<Rightarrow> clientStop c RestartThen s)
      | None \<Rightarrow>
          (case startLanguageServer quote h s of
             Inl e \<Rightarrow> emit [Rejected e] s
           | Inr s' \<Rightarrow> resolveRestart s'))"

text \<open>
  The stop promise at position \<open>i\<close> of the pending ones is fulfilled: the handshake has
  completed, and what waits for it runs.
\<close>

definition stopCompletes :: "(string \<Rightarrow> string) \<Rightarrow> host \<Rightarrow> nat \<Rightarrow> ext_state \<Rightarrow> ext_state" where
  "stopCompletes quote h i s =
     (if i < length (pendingStops s) then
        (case pendingStops s ! i of
           (c, cb) \<Rightarrow>
             let s1 = emit [StopCompleted c]
                        (s\<lparr>pendingStops := take i (pendingStops s) @ drop (Suc i) (pendingStops s)\<rparr>)
             in (case cb of
                   RestartThen \<Rightarrow> restartThen quote h s1
                 | DeactivateAwait \<Rightarrow> emit [DeactivateResolved] s1))
      else s)"

text \<open>
  Lines 164 to 169. The result is \<^verbatim>\<open>undefined\<close> (\<^term>\<open>None\<close>) or the promise of the
  stop of the client named.
\<close>

definition deactivate :: "ext_state \<Rightarrow> nat option \<times> ext_state" where
  "deactivate s =
     (case client s of
        None \<Rightarrow> (None, s)
      | Some c \<Rightarrow> (Some c, clientStop c DeactivateAwait s))"

text \<open>Lines 56 to 162: the command is registered, then the server is started.\<close>

definition activate :: "(string \<Rightarrow> string) \<Rightarrow> host \<Rightarrow> error + ext_state" where
  "activate quote h = startLanguageServer quote h initialState"

text \<open>The state activation leaves behind; an exception leaves the variables unset.\<close>

definition activated :: "(string \<Rightarrow> string) \<Rightarrow> host \<Rightarrow> ext_state" where
  "activated quote h = (case activate quote h of Inl e \<Rightarrow> initialState | Inr s \<Rightarrow> s)"

text \<open>
  What can happen after activation, each with the host as it is at that moment: the user
  runs the restart command, a pending stop handshake completes, the editor deactivates
  the extension.
\<close>

datatype action =
    RestartCommand host
  | StopHandshakeCompletes host nat
  | Deactivate

fun step :: "(string \<Rightarrow> string) \<Rightarrow> action \<Rightarrow> ext_state \<Rightarrow> ext_state" where
  "step quote (RestartCommand h) s = restartLanguageServer quote h s"
| "step quote (StopHandshakeCompletes h i) s = stopCompletes quote h i s"
| "step quote Deactivate s = snd (deactivate s)"

fun run :: "(string \<Rightarrow> string) \<Rightarrow> action list \<Rightarrow> ext_state \<Rightarrow> ext_state" where
  "run quote [] s = s"
| "run quote (a # as) s = run quote as (step quote a s)"

section \<open>Properties of the record of calls\<close>

text \<open>A property that holds of every call in the record, given the calls before it.\<close>

definition always_before :: "(event list \<Rightarrow> event \<Rightarrow> bool) \<Rightarrow> event list \<Rightarrow> bool" where
  "always_before P tr = (\<forall>pre e post. tr = pre @ e # post \<longrightarrow> P pre e)"

text \<open>
  What must have happened before a client is constructed (nothing, or a completed stop
  and a dispose) and before a process is spawned.
\<close>

fun okBefore :: "event list \<Rightarrow> event \<Rightarrow> bool" where
  "okBefore pre (ClientNew n) =
     ((\<forall>m. ClientNew m \<notin> set pre) \<or>
      (\<exists>pre' c d. pre = pre' @ [StopCompleted c, Disposed d] \<and>
         StopRequested c \<in> set pre' \<and> Disposed c \<in> set pre))"
| "okBefore pre (Spawn n child) = (\<exists>pre'. pre = pre' @ [ClientNew n, ClientStart n])"
| "okBefore pre e = True"

text \<open>What holds of every state the extension can reach.\<close>

definition lifecycle_inv :: "ext_state \<Rightarrow> bool" where
  "lifecycle_inv s =
     (client s = disposableClient s \<and>
      (disposableClient s = None \<longrightarrow> (\<forall>n. ClientNew n \<notin> set (trace s))) \<and>
      (disposableClient s \<noteq> None \<longrightarrow> (\<exists>n. ClientNew n \<in> set (trace s))) \<and>
      (\<forall>(c, cb) \<in> set (pendingStops s).
          StopRequested c \<in> set (trace s) \<and>
          (disposableClient s = Some c \<or> Disposed c \<in> set (trace s))) \<and>
      always_before okBefore (trace s))"

text \<open>The clients constructed, in the order of their construction.\<close>

fun clientOf :: "event \<Rightarrow> nat list" where
  "clientOf (ClientNew n) = [n]"
| "clientOf e = []"

definition constructed :: "event list \<Rightarrow> nat list" where
  "constructed tr = concat (map clientOf tr)"

text \<open>
  Serial use of the restart command: it is not run while an earlier restart still waits
  for its stop handshake.
\<close>

definition waitingRestarts :: "ext_state \<Rightarrow> (nat \<times> callback) list" where
  "waitingRestarts s = filter (\<lambda>p. snd p = RestartThen) (pendingStops s)"

fun allowed :: "action \<Rightarrow> ext_state \<Rightarrow> bool" where
  "allowed (RestartCommand h) s = (waitingRestarts s = [])"
| "allowed a s = True"

fun serial :: "(string \<Rightarrow> string) \<Rightarrow> action list \<Rightarrow> ext_state \<Rightarrow> bool" where
  "serial quote [] s = True"
| "serial quote (a # as) s = (allowed a s \<and> serial quote as (step quote a s))"

text \<open>
  Under serial use: a client other than the first is constructed directly after the stop
  of the client before it has completed and the disposable of that client was disposed.
\<close>

fun okSerial :: "event list \<Rightarrow> event \<Rightarrow> bool" where
  "okSerial pre (ClientNew 0) = True"
| "okSerial pre (ClientNew (Suc n)) =
     (\<exists>pre'. pre = pre' @ [StopCompleted n, Disposed n] \<and> StopRequested n \<in> set pre')"
| "okSerial pre (Spawn n child) = (\<exists>pre'. pre = pre' @ [ClientNew n, ClientStart n])"
| "okSerial pre e = True"

text \<open>What holds of every state reached under serial use.\<close>

definition serial_inv :: "ext_state \<Rightarrow> bool" where
  "serial_inv s =
     (client s = disposableClient s \<and>
      client s = (case clientsCreated s of 0 \<Rightarrow> None | Suc c \<Rightarrow> Some c) \<and>
      constructed (trace s) = [0..<clientsCreated s] \<and>
      (\<forall>p \<in> set (waitingRestarts s). client s = Some (fst p) \<and> StopRequested (fst p) \<in> set (trace s)) \<and>
      length (waitingRestarts s) \<le> 1 \<and>
      always_before okSerial (trace s))"

section \<open>Concrete inputs\<close>

text \<open>A stand-in for the quoting of one token, which makes each quoted token visible.\<close>

definition bracket :: "string \<Rightarrow> string" where
  "bracket t = ''<'' @ t @ ''>''"

definition bundlerConfig :: config where
  "bundlerConfig = \<lparr>commandPath = Some ''/opt/srb'', useBundler = Some True,
     useWatchman = Some True, bundlerPath = None, commandOptions = Some '' -v ''\<rparr>"

definition customBundlerConfig :: config where
  "customBundlerConfig = \<lparr>commandPath = Some ''/opt/srb'', useBundler = Some True,
     useWatchman = Some True, bundlerPath = Some ''/usr/local/bin/bundle'',
     commandOptions = Some '' -v ''\<rparr>"

definition customCommandConfig :: config where
  "customCommandConfig = \<lparr>commandPath = Some ''/opt/srb'', useBundler = Some False,
     useWatchman = None, bundlerPath = Some ''/usr/local/bin/bundle'',
     commandOptions = Some []\<rparr>"

definition watchmanClashConfig :: config where
  "watchmanClashConfig = \<lparr>commandPath = None, useBundler = Some False,
     useWatchman = Some True, bundlerPath = None, commandOptions = Some ''--disable-watchman''\<rparr>"

definition noWatchmanConfig :: config where
  "noWatchmanConfig = \<lparr>commandPath = None, useBundler = None,
     useWatchman = Some False, bundlerPath = None, commandOptions = Some ''''\<rparr>"

definition projHost :: host where
  "projHost = \<lparr>settings = noWatchmanConfig, workspaceFolder = Some ''/proj'',
     files = [''/proj/sorbet/config''], osPlatform = ''win32'', envShell = None\<rparr>"

definition emptyHost :: host where
  "emptyHost = \<lparr>settings = noWatchmanConfig, workspaceFolder = Some ''/proj'',
     files = [], osPlatform = ''linux'', envShell = Some ''/bin/zsh''\<rparr>"

definition unsetOptionsHost :: host where
  "unsetOptionsHost = \<lparr>settings = noWatchmanConfig\<lparr>commandOptions := None\<rparr>,
     workspaceFolder = Some ''/proj'', files = [''/proj/sorbet/config''],
     osPlatform = ''linux'', envShell = Some ''/bin/zsh''\<rparr>"

definition projChild :: spawn_call where
  "projChild = CrossSpawn (Some ''srb'')
     [''tc'', ''--lsp'', ''--enable-all-experimental-lsp-features'', ''--disable-watchman'']
     \<lparr>opt_shell = None, opt_cwd = Some ''/proj''\<rparr>"

definition serialRestarts :: "action list" where
  "serialRestarts = [RestartCommand projHost, StopHandshakeCompletes projHost 0,
                     RestartCommand projHost, StopHandshakeCompletes projHost 0]"

definition reentrantRestarts :: "action list" where
  "reentrantRestarts = [RestartCommand projHost, RestartCommand projHost,
                        StopHandshakeCompletes projHost 1, StopHandshakeCompletes projHost 0]"

section \<open>The command builder: proofs\<close>

lemma trim_whitespace_only: "\<forall>c\<in>set s. isWhiteSpace c \<Longrightarrow> trim s = []"
proof -
  assume "\<forall>c\<in>set s. isWhiteSpace c"
  then have e: "dropWhile isWhiteSpace s = []" by (simp only: dropWhile_eq_Nil_conv)
  show ?thesis unfolding trim_def e by simp
qed

lemma trim_empty: "trim [] = []"
  by (simp add: trim_def)

lemma trim_flag: "trim ''--disable-watchman'' = ''--disable-watchman''"
  by (simp add: trim_def isWhiteSpace_def)

lemma orDefault_nonempty: "d \<noteq> [] \<Longrightarrow> orDefault v d \<noteq> []"
  by (cases v) auto

lemma buildCommand_noWatchman:
  "buildCommand noWatchmanConfig =
     Inr [''srb'', ''tc'', ''--lsp'', ''--enable-all-experimental-lsp-features'', ''--disable-watchman'']"
  by (simp add: noWatchmanConfig_def buildCommand_def launchPrefix_def optionToken_def
        watchmanTokens_def trim_def)

text \<open>
  C2: when the options setting is a string, the argv of the command builder is, in order:
  if useBundler is true, the bundler path as configured (bundle when it is undefined or
  empty), exec and srb, and otherwise the command path as configured (srb when it is
  undefined or empty); then tc and --lsp; then the trimmed options, or the default flag
  when they are empty; then --disable-watchman unless useWatchman is true.
\<close>

theorem buildCommand_prefix:
  assumes "commandOptions cfg = Some opts"
  shows "buildCommand cfg =
           Inr ((if useBundler cfg = Some True
                 then [case bundlerPath cfg of
                         None \<Rightarrow> ''bundle''
                       | Some p \<Rightarrow> if p = [] then ''bundle'' else p,
                       ''exec'', ''srb'']
                 else [case commandPath cfg of
                         None \<Rightarrow> ''srb''
                       | Some p \<Rightarrow> if p = [] then ''srb'' else p])
                @ [''tc'', ''--lsp'']
                @ [if trim opts = [] then ''--enable-all-experimental-lsp-features'' else trim opts]
                @ (if useWatchman cfg = Some True then [] else [''--disable-watchman'']))"
proof -
  have b: "truthy (useBundler cfg) = (useBundler cfg = Some True)"
    by (cases "useBundler cfg") auto
  have w: "truthy (useWatchman cfg) = (useWatchman cfg = Some True)"
    by (cases "useWatchman cfg") auto
  show ?thesis
    using assms
    by (cases "bundlerPath cfg"; cases "commandPath cfg")
       (simp_all add: buildCommand_def launchPrefix_def optionToken_def watchmanTokens_def b w)
qed

theorem buildCommand_prefix_witness:
  "commandOptions customBundlerConfig = Some '' -v '' \<and>
   buildCommand customBundlerConfig =
     Inr [''/usr/local/bin/bundle'', ''exec'', ''srb'', ''tc'', ''--lsp'', ''-v''] \<and>
   commandOptions customCommandConfig = Some [] \<and>
   buildCommand customCommandConfig =
     Inr [''/opt/srb'', ''tc'', ''--lsp'', ''--enable-all-experimental-lsp-features'',
          ''--disable-watchman''] \<and>
   commandOptions bundlerConfig = Some '' -v '' \<and>
   buildCommand bundlerConfig = Inr [''bundle'', ''exec'', ''srb'', ''tc'', ''--lsp'', ''-v''] \<and>
   commandOptions noWatchmanConfig = Some [] \<and>
   buildCommand noWatchmanConfig =
     Inr [''srb'', ''tc'', ''--lsp'', ''--enable-all-experimental-lsp-features'',
          ''--disable-watchman'']"
proof -
  have t: "trim '' -v '' = ''-v''" "trim [] = []"
    by (simp_all add: trim_def isWhiteSpace_def)
  have a: "commandOptions customBundlerConfig = Some '' -v ''"
    by (simp add: customBundlerConfig_def)
  have b: "commandOptions customCommandConfig = Some []"
    by (simp add: customCommandConfig_def)
  have c: "commandOptions bundlerConfig = Some '' -v ''"
    by (simp add: bundlerConfig_def)
  have d: "commandOptions noWatchmanConfig = Some []"
    by (simp add: noWatchmanConfig_def)
  have "buildCommand customBundlerConfig =
     Inr [''/usr/local/bin/bundle'', ''exec'', ''srb'', ''tc'', ''--lsp'', ''-v'']"
    by (simp add: buildCommand_prefix [OF a] t) (simp add: customBundlerConfig_def)
  moreover have "buildCommand customCommandConfig =
     Inr [''/opt/srb'', ''tc'', ''--lsp'', ''--enable-all-experimental-lsp-features'',
          ''--disable-watchman'']"
    by (simp add: buildCommand_prefix [OF b] t) (simp add: customCommandConfig_def)
  moreover have "buildCommand bundlerConfig =
     Inr [''bundle'', ''exec'', ''srb'', ''tc'', ''--lsp'', ''-v'']"
    by (simp add: buildCommand_prefix [OF c] t) (simp add: bundlerConfig_def)
  moreover have "buildCommand noWatchmanConfig =
     Inr [''srb'', ''tc'', ''--lsp'', ''--enable-all-experimental-lsp-features'',
          ''--disable-watchman'']"
    by (simp add: buildCommand_prefix [OF d] t) (simp add: noWatchmanConfig_def)
  ultimately show ?thesis using a b c d by blast
qed

text \<open>
  C5: an options setting made of white space only gives the same argv as the empty string:
  the default flag --enable-all-experimental-lsp-features is appended, and no token of the
  argv is empty.
\<close>

theorem buildCommand_whitespace_options:
  assumes "\<forall>c\<in>set ws. isWhiteSpace c"
  shows "buildCommand (cfg\<lparr>commandOptions := Some ws\<rparr>) = buildCommand (cfg\<lparr>commandOptions := Some ''''\<rparr>)
       \<and> buildCommand (cfg\<lparr>commandOptions := Some ws\<rparr>) =
           Inr (launchPrefix cfg @ [''tc'', ''--lsp'', ''--enable-all-experimental-lsp-features'']
                @ watchmanTokens cfg)
       \<and> (\<forall>argv. buildCommand (cfg\<lparr>commandOptions := Some ws\<rparr>) = Inr argv \<longrightarrow> [] \<notin> set argv)"
  using assms
  by (auto simp add: buildCommand_def trim_whitespace_only trim_empty optionToken_def
        launchPrefix_def watchmanTokens_def dest: sym [THEN orDefault_nonempty [THEN notE, rotated]])

theorem buildCommand_whitespace_options_witness:
  "list_all isWhiteSpace ''  '' \<and>
   buildCommand (bundlerConfig\<lparr>commandOptions := Some ''  ''\<rparr>) =
     Inr [''bundle'', ''exec'', ''srb'', ''tc'', ''--lsp'', ''--enable-all-experimental-lsp-features'']"
proof -
  have h: "\<forall>c\<in>set ''  ''. isWhiteSpace c" by (simp add: isWhiteSpace_def)
  from buildCommand_whitespace_options [OF h, of bundlerConfig]
  have "buildCommand (bundlerConfig\<lparr>commandOptions := Some ''  ''\<rparr>) =
           Inr (launchPrefix bundlerConfig @ [''tc'', ''--lsp'', ''--enable-all-experimental-lsp-features'']
                @ watchmanTokens bundlerConfig)" by blast
  then show ?thesis using h
    by (simp add: bundlerConfig_def launchPrefix_def watchmanTokens_def list_all_iff)
qed

theorem buildCommand_watchman_counterexample:
  "truthy (useWatchman watchmanClashConfig) \<and>
   buildCommand watchmanClashConfig = Inr [''srb'', ''tc'', ''--lsp'', ''--disable-watchman''] \<and>
   ''--disable-watchman'' \<in> set [''srb'', ''tc'', ''--lsp'', ''--disable-watchman'']"
  by (simp add: watchmanClashConfig_def buildCommand_def launchPrefix_def optionToken_def
        watchmanTokens_def trim_flag)

text \<open>
  C6, as amended: when useWatchman is falsy, --disable-watchman is the last token of the
  argv. When useWatchman is truthy the builder appends no such token: the argv is the
  prefix, tc, --lsp and the option token, and it contains --disable-watchman only if a
  token of the prefix or the trimmed options setting is that very string.
\<close>

theorem buildCommand_watchman_flag:
  assumes "buildCommand cfg = Inr argv"
  shows "(\<not> truthy (useWatchman cfg) \<longrightarrow> argv \<noteq> [] \<and> last argv = ''--disable-watchman'') \<and>
         (truthy (useWatchman cfg) \<longrightarrow>
            (\<exists>opts. commandOptions cfg = Some opts \<and>
               argv = launchPrefix cfg @ [''tc'', ''--lsp'', optionToken (trim opts)] \<and>
               (''--disable-watchman'' \<in> set argv \<longleftrightarrow>
                  ''--disable-watchman'' \<in> set (launchPrefix cfg) \<or>
                  trim opts = ''--disable-watchman'')))"
proof (cases "commandOptions cfg")
  case None
  with assms show ?thesis by (simp add: buildCommand_def)
next
  case (Some opts)
  with assms have argv: "argv = launchPrefix cfg @ [''tc'', ''--lsp'', optionToken (trim opts)]
                             @ watchmanTokens cfg"
    by (auto simp add: buildCommand_def)
  show ?thesis
    using Some argv by (auto simp add: watchmanTokens_def optionToken_def)
qed

theorem buildCommand_watchman_flag_witness:
  "buildCommand noWatchmanConfig =
     Inr [''srb'', ''tc'', ''--lsp'', ''--enable-all-experimental-lsp-features'', ''--disable-watchman'']
   \<and> \<not> truthy (useWatchman noWatchmanConfig)
   \<and> last [''srb'', ''tc'', ''--lsp'', ''--enable-all-experimental-lsp-features'', ''--disable-watchman'']
       = ''--disable-watchman''"
proof -
  have b: "buildCommand noWatchmanConfig =
     Inr [''srb'', ''tc'', ''--lsp'', ''--enable-all-experimental-lsp-features'', ''--disable-watchman'']"
    by (simp add: noWatchmanConfig_def buildCommand_def launchPrefix_def optionToken_def
        watchmanTokens_def trim_def)
  have f: "\<not> truthy (useWatchman noWatchmanConfig)" by (simp add: noWatchmanConfig_def)
  from buildCommand_watchman_flag [OF b] f b show ?thesis by blast
qed

text \<open>
  C10: when the options setting is undefined, line 67 throws: the builder yields no argv,
  and startLanguageServer and activate end with the TypeError, with no effect on the state
  (no client, no spawn).
\<close>

theorem commandOptions_undefined_throws:
  assumes "commandOptions (settings h) = None"
  shows "buildCommand (settings h) = Inl TypeError \<and>
         startLanguageServer quote h s = Inl TypeError \<and>
         activate quote h = Inl TypeError"
  using assms by (simp add: buildCommand_def startLanguageServer_def activate_def)

theorem commandOptions_undefined_throws_witness:
  "commandOptions (settings unsetOptionsHost) = None \<and>
   existsSync unsetOptionsHost (markerPath unsetOptionsHost) \<and>
   buildCommand (settings unsetOptionsHost) = Inl TypeError \<and>
   startLanguageServer bracket unsetOptionsHost initialState = Inl TypeError \<and>
   activate bracket unsetOptionsHost = Inl TypeError"
proof -
  have a: "commandOptions (settings unsetOptionsHost) = None"
    by (simp add: unsetOptionsHost_def)
  have b: "existsSync unsetOptionsHost (markerPath unsetOptionsHost)"
    by (simp add: unsetOptionsHost_def existsSync_def markerPath_def)
  from commandOptions_undefined_throws [OF a, of bracket initialState] a b
  show ?thesis by blast
qed

section \<open>The spawner: proofs\<close>

lemma linux_matches: "matchesDarwinOrLinux ''linux''"
  by (simp add: matchesDarwinOrLinux_def)

lemma zsh_ends: "endsWith (resolveShell (Some ''/bin/zsh'')) ''zsh''"
  by (simp add: resolveShell_def endsWith_def)

lemma win32_no_match: "\<not> matchesDarwinOrLinux ''win32''"
  by (simp add: matchesDarwinOrLinux_def)

lemma fish_no_match:
  "\<not> (endsWith (resolveShell (Some ''/usr/bin/fish'')) ''bash'' \<or>
      endsWith (resolveShell (Some ''/usr/bin/fish'')) ''zsh'')"
  by (simp add: resolveShell_def endsWith_def)

text \<open>
  C3: when the platform name matches darwin or linux and the resolved shell ends in bash or
  zsh, the spawner calls child_process.spawn on the shell with the arguments -l, -c and the
  command string, leaving the array as it was. The command string is the quoted tokens
  joined by spaces; when the options carry a (non-empty) working directory, the quoted
  tokens cd and the directory, joined by a space, come first, followed by the separator
  made of a space, two ampersands and a space. The options passed on keep the working
  directory, and their shell is the one the options had, or else the resolved shell.
\<close>

theorem spawnWithBash_login_shell:
  assumes "matchesDarwinOrLinux plat"
      and "endsWith (resolveShell sh) ''bash'' \<or> endsWith (resolveShell sh) ''zsh''"
  shows "spawnWithBash quote plat sh cmd opts =
           (ChildProcessSpawn (resolveShell sh)
              [''-l'', ''-c'',
               (if truthyStr (opt_cwd opts)
                then join '' '' (map quote [''cd'', the (opt_cwd opts)]) @ '' && ''
                       @ join '' '' (map quote cmd)
                else join '' '' (map quote cmd))]
              \<lparr>opt_shell = (case opt_shell opts of
                              None \<Rightarrow> Some (resolveShell sh)
                            | Some own \<Rightarrow> Some own),
               opt_cwd = opt_cwd opts\<rparr>,
            cmd)"
  using assms
  by (cases "opt_cwd opts")
     (simp_all add: spawnWithBash_def shellCommand_def shellEscape_def shellAndOptions_def
        Let_def)

theorem spawnWithBash_login_shell_witness:
  "matchesDarwinOrLinux ''linux'' \<and> endsWith (resolveShell (Some ''/bin/zsh'')) ''zsh'' \<and>
   spawnWithBash bracket ''linux'' (Some ''/bin/zsh'') [''srb'', ''tc'', ''--lsp'']
       \<lparr>opt_shell = None, opt_cwd = Some ''/proj''\<rparr> =
     (ChildProcessSpawn ''/bin/zsh''
        [''-l'', ''-c'', ''<cd> </proj> && <srb> <tc> <--lsp>'']
        \<lparr>opt_shell = Some ''/bin/zsh'', opt_cwd = Some ''/proj''\<rparr>,
      [''srb'', ''tc'', ''--lsp'']) \<and>
   spawnWithBash bracket ''linux'' (Some ''/bin/zsh'') [''srb'', ''tc'', ''--lsp'']
       \<lparr>opt_shell = Some ''/bin/sh'', opt_cwd = None\<rparr> =
     (ChildProcessSpawn ''/bin/zsh''
        [''-l'', ''-c'', ''<srb> <tc> <--lsp>'']
        \<lparr>opt_shell = Some ''/bin/sh'', opt_cwd = None\<rparr>,
      [''srb'', ''tc'', ''--lsp''])"
proof -
  note a = spawnWithBash_login_shell [where plat = "''linux''" and sh = "Some ''/bin/zsh''"
             and quote = bracket and cmd = "[''srb'', ''tc'', ''--lsp'']"
             and opts = "\<lparr>opt_shell = None, opt_cwd = Some ''/proj''\<rparr>",
             OF linux_matches disjI2 [OF zsh_ends]]
  note b = spawnWithBash_login_shell [where plat = "''linux''" and sh = "Some ''/bin/zsh''"
             and quote = bracket and cmd = "[''srb'', ''tc'', ''--lsp'']"
             and opts = "\<lparr>opt_shell = Some ''/bin/sh'', opt_cwd = None\<rparr>",
             OF linux_matches disjI2 [OF zsh_ends]]
  show ?thesis
    using linux_matches zsh_ends
    by (simp add: a b bracket_def resolveShell_def)
qed

text \<open>
  C7: when the platform name matches neither darwin nor linux, or the resolved shell ends
  neither in bash nor in zsh, the spawner calls crossSpawn with the first token as the
  program, the remaining tokens as arguments and the options unchanged; no token is quoted.
\<close>

theorem spawnWithBash_direct:
  assumes "\<not> matchesDarwinOrLinux plat \<or>
           \<not> (endsWith (resolveShell sh) ''bash'' \<or> endsWith (resolveShell sh) ''zsh'')"
  shows "fst (spawnWithBash quote plat sh (prog # args) opts) = CrossSpawn (Some prog) args opts"
  using assms by (auto simp add: spawnWithBash_def directSpawn_def Let_def)

theorem spawnWithBash_direct_witness:
  "\<not> (endsWith (resolveShell (Some ''/usr/bin/fish'')) ''bash'' \<or>
      endsWith (resolveShell (Some ''/usr/bin/fish'')) ''zsh'') \<and>
   fst (spawnWithBash bracket ''linux'' (Some ''/usr/bin/fish'') [''srb'', ''tc'', ''--lsp'']
         \<lparr>opt_shell = None, opt_cwd = Some ''/proj''\<rparr>) =
     CrossSpawn (Some ''srb'') [''tc'', ''--lsp''] \<lparr>opt_shell = None, opt_cwd = Some ''/proj''\<rparr>"
  using spawnWithBash_direct [where plat = "''linux''" and sh = "Some ''/usr/bin/fish''"
          and quote = bracket and prog = "''srb''" and args = "[''tc'', ''--lsp'']"
          and opts = "\<lparr>opt_shell = None, opt_cwd = Some ''/proj''\<rparr>",
          OF disjI2 [OF fish_no_match]]
        fish_no_match
  by simp

text \<open>
  C9: on the direct path the spawner leaves the array without its first token, so a second
  run of the server options on the same array (of at least two tokens) spawns the original
  second token as the program.
\<close>

theorem serverOptions_shifts_captured_array:
  assumes "\<not> matchesDarwinOrLinux plat \<or>
           \<not> (endsWith (resolveShell sh) ''bash'' \<or> endsWith (resolveShell sh) ''zsh'')"
      and "2 \<le> length cmd"
  shows "snd (serverOptions quote plat sh cmd env) = tl cmd \<and>
         fst (serverOptions quote plat sh (snd (serverOptions quote plat sh cmd env)) env) =
           CrossSpawn (Some (cmd ! 1)) (drop 2 cmd) env"
proof -
  from assms(2) obtain a b rest where cmd: "cmd = a # b # rest"
    by (cases cmd; cases "tl cmd") auto
  show ?thesis
    using assms(1)
    by (auto simp add: cmd serverOptions_def spawnWithBash_def directSpawn_def Let_def)
qed

theorem serverOptions_shifts_captured_array_witness:
  "\<not> matchesDarwinOrLinux ''win32'' \<and> 2 \<le> length [''srb'', ''tc'', ''--lsp''] \<and>
   snd (serverOptions bracket ''win32'' None [''srb'', ''tc'', ''--lsp''] \<lparr>opt_shell = None, opt_cwd = None\<rparr>)
     = [''tc'', ''--lsp''] \<and>
   fst (serverOptions bracket ''win32'' None
         (snd (serverOptions bracket ''win32'' None [''srb'', ''tc'', ''--lsp'']
                 \<lparr>opt_shell = None, opt_cwd = None\<rparr>))
         \<lparr>opt_shell = None, opt_cwd = None\<rparr>) =
     CrossSpawn (Some ''tc'') [''--lsp''] \<lparr>opt_shell = None, opt_cwd = None\<rparr>"
proof -
  have l: "2 \<le> length [''srb'', ''tc'', ''--lsp'']" by simp
  note r = serverOptions_shifts_captured_array [where plat = "''win32''" and sh = None
             and quote = bracket and cmd = "[''srb'', ''tc'', ''--lsp'']"
             and env = "\<lparr>opt_shell = None, opt_cwd = None\<rparr>", OF disjI1 [OF win32_no_match] l]
  from conjunct1 [OF r] have a: "snd (serverOptions bracket ''win32'' None [''srb'', ''tc'', ''--lsp'']
        \<lparr>opt_shell = None, opt_cwd = None\<rparr>) = [''tc'', ''--lsp'']" by simp
  from conjunct2 [OF r] have b: "fst (serverOptions bracket ''win32'' None
         (snd (serverOptions bracket ''win32'' None [''srb'', ''tc'', ''--lsp'']
                 \<lparr>opt_shell = None, opt_cwd = None\<rparr>))
         \<lparr>opt_shell = None, opt_cwd = None\<rparr>) =
     CrossSpawn (Some ''tc'') [''--lsp''] \<lparr>opt_shell = None, opt_cwd = None\<rparr>" by simp
  from win32_no_match l a b show ?thesis by blast
qed

section \<open>The connection lifecycle: proofs\<close>

lemma always_before_Nil: "always_before P []"
  by (simp add: always_before_def)

lemma always_before_snoc:
  assumes "always_before P tr" and "P tr e"
  shows "always_before P (tr @ [e])"
  unfolding always_before_def
proof (intro allI impI)
  fix pre x post
  assume eq: "tr @ [e] = pre @ x # post"
  show "P pre x"
  proof (cases post rule: rev_cases)
    case Nil
    with eq have "pre = tr" "x = e" by auto
    with assms(2) show ?thesis by simp
  next
    case (snoc post' y)
    with eq have "tr = pre @ x # post'" by (metis append_assoc append_Cons butlast_snoc)
    with assms(1) show ?thesis by (auto simp add: always_before_def)
  qed
qed

lemma lifecycle_inv_initial: "lifecycle_inv initialState"
  by (simp add: lifecycle_inv_def initialState_def always_before_Nil)

lemma start_shape:
  assumes "startLanguageServer quote h s = Inr s'"
  shows "s' = emit [Notice Information ''Sorbet config not found. Sorbet server will not be started''] s
         \<or> (\<exists>cmd env. s' = launchClient quote h cmd env s)"
  using assms
  by (auto simp add: startLanguageServer_def showInformationMessage_def Let_def
           split: sum.splits if_splits)

lemma lifecycle_inv_emit_plain:
  assumes "lifecycle_inv s" and "okBefore (trace s) e" and "\<forall>n. e \<noteq> ClientNew n"
  shows "lifecycle_inv (emit [e] s)"
  using assms
  by (auto simp add: lifecycle_inv_def emit_def always_before_snoc split: prod.splits)

lemma launch_trace:
  "launchClient quote h cmd env s =
     s\<lparr>client := Some (clientsCreated s), clientsCreated := Suc (clientsCreated s),
       trace := trace s @ [ClientNew (clientsCreated s), ClientStart (clientsCreated s),
          Spawn (clientsCreated s) (fst (serverOptions quote (osPlatform h) (envShell h) cmd env))],
       disposableClient := Some (clientsCreated s)\<rparr>"
  by (simp add: launchClient_def emit_def Let_def)

lemma lifecycle_inv_launch:
  assumes "lifecycle_inv s" and "okBefore (trace s) (ClientNew (clientsCreated s))"
      and "\<forall>d. disposableClient s = Some d \<longrightarrow> Disposed d \<in> set (trace s)"
  shows "lifecycle_inv (launchClient quote h cmd env s)"
proof -
  let ?n = "clientsCreated s"
  let ?ch = "fst (serverOptions quote (osPlatform h) (envShell h) cmd env)"
  have a1: "always_before okBefore (trace s @ [ClientNew ?n])"
    using assms by (simp add: lifecycle_inv_def always_before_snoc)
  have a2: "always_before okBefore ((trace s @ [ClientNew ?n]) @ [ClientStart ?n])"
    by (rule always_before_snoc [OF a1]) simp
  have a3: "always_before okBefore (((trace s @ [ClientNew ?n]) @ [ClientStart ?n]) @ [Spawn ?n ?ch])"
    by (rule always_before_snoc [OF a2]) simp
  have pend: "\<forall>(c, cb) \<in> set (pendingStops s). StopRequested c \<in> set (trace s) \<and> Disposed c \<in> set (trace s)"
    using assms(1,3) by (auto simp add: lifecycle_inv_def)
  show ?thesis
    using a3 pend by (auto simp add: launch_trace lifecycle_inv_def)
qed

lemma lifecycle_inv_start:
  assumes "lifecycle_inv s" and "okBefore (trace s) (ClientNew (clientsCreated s))"
      and "\<forall>d. disposableClient s = Some d \<longrightarrow> Disposed d \<in> set (trace s)"
      and "startLanguageServer quote h s = Inr s'"
  shows "lifecycle_inv s'"
  using start_shape [OF assms(4)] assms(1-3)
  by (auto simp add: lifecycle_inv_launch lifecycle_inv_emit_plain)

lemma lifecycle_inv_resolveRestart: "lifecycle_inv s \<Longrightarrow> lifecycle_inv (resolveRestart s)"
  by (simp add: resolveRestart_def showInformationMessage_def lifecycle_inv_emit_plain)

lemma lifecycle_inv_clientStop:
  assumes "lifecycle_inv s" and "client s = Some c"
  shows "lifecycle_inv (clientStop c cb s)"
  using assms
  by (auto simp add: lifecycle_inv_def clientStop_def emit_def always_before_snoc)

lemma lifecycle_inv_restartLanguageServer:
  assumes "lifecycle_inv s"
  shows "lifecycle_inv (restartLanguageServer quote h s)"
proof (cases "disposableClient s")
  case None
  then have nonew: "okBefore (trace s) (ClientNew (clientsCreated s))"
    using assms by (simp add: lifecycle_inv_def)
  show ?thesis
  proof (cases "startLanguageServer quote h s")
    case (Inl e)
    with None show ?thesis
      using assms by (simp add: restartLanguageServer_def lifecycle_inv_emit_plain)
  next
    case (Inr s')
    have "lifecycle_inv s'" using lifecycle_inv_start [OF assms nonew _ Inr] None by simp
    with None Inr show ?thesis
      by (simp add: restartLanguageServer_def lifecycle_inv_resolveRestart)
  qed
next
  case (Some d)
  with assms have "client s = Some d" by (simp add: lifecycle_inv_def)
  with Some assms show ?thesis
    by (simp add: restartLanguageServer_def lifecycle_inv_clientStop)
qed

lemma lifecycle_inv_drop_pending:
  assumes "lifecycle_inv s"
  shows "lifecycle_inv (s\<lparr>pendingStops := take i (pendingStops s) @ drop (Suc i) (pendingStops s)\<rparr>)"
  using assms
  by (auto simp add: lifecycle_inv_def dest!: in_set_takeD in_set_dropD)

lemma lifecycle_inv_restartThen:
  assumes "lifecycle_inv s"
      and "trace s = tr @ [StopCompleted c]"
      and "StopRequested c \<in> set tr"
      and "disposableClient s = Some c \<or> Disposed c \<in> set tr"
  shows "lifecycle_inv (restartThen quote h s)"
proof (cases "disposableClient s")
  case None
  with assms(1) show ?thesis by (simp add: restartThen_def lifecycle_inv_emit_plain)
next
  case (Some d)
  let ?s1 = "emit [Disposed d] s"
  have i1: "lifecycle_inv ?s1" using assms(1) by (simp add: lifecycle_inv_emit_plain)
  have tr1: "trace ?s1 = tr @ [StopCompleted c, Disposed d]"
    using assms(2) by (simp add: emit_def)
  have dc: "Disposed c \<in> set (trace ?s1)"
    using assms(4) Some tr1 by auto
  have ok: "okBefore (trace ?s1) (ClientNew (clientsCreated ?s1))"
    using assms(3) dc tr1 by auto
  have dd: "\<forall>d'. disposableClient ?s1 = Some d' \<longrightarrow> Disposed d' \<in> set (trace ?s1)"
    using Some by (simp add: emit_def)
  show ?thesis
  proof (cases "startLanguageServer quote h ?s1")
    case (Inl e)
    with Some i1 show ?thesis by (simp add: restartThen_def lifecycle_inv_emit_plain)
  next
    case (Inr s2)
    have "lifecycle_inv s2" by (rule lifecycle_inv_start [OF i1 ok dd Inr])
    with Some Inr show ?thesis by (simp add: restartThen_def lifecycle_inv_resolveRestart)
  qed
qed

lemma lifecycle_inv_stopCompletes:
  assumes "lifecycle_inv s"
  shows "lifecycle_inv (stopCompletes quote h i s)"
proof (cases "i < length (pendingStops s)")
  case False
  with assms show ?thesis by (simp add: stopCompletes_def)
next
  case True
  obtain c cb where p: "pendingStops s ! i = (c, cb)" by (cases "pendingStops s ! i")
  from True p have mem: "(c, cb) \<in> set (pendingStops s)" by (metis nth_mem)
  let ?s0 = "s\<lparr>pendingStops := take i (pendingStops s) @ drop (Suc i) (pendingStops s)\<rparr>"
  let ?s1 = "emit [StopCompleted c] ?s0"
  have i0: "lifecycle_inv ?s0" by (rule lifecycle_inv_drop_pending [OF assms])
  have i1: "lifecycle_inv ?s1" using i0 by (simp add: lifecycle_inv_emit_plain)
  have req: "StopRequested c \<in> set (trace s)"
    and dis: "disposableClient s = Some c \<or> Disposed c \<in> set (trace s)"
    using assms mem by (auto simp add: lifecycle_inv_def)
  show ?thesis
  proof (cases cb)
    case RestartThen
    have "lifecycle_inv (restartThen quote h ?s1)"
      by (rule lifecycle_inv_restartThen [OF i1, where tr = "trace s" and c = c])
         (use req dis in \<open>simp_all add: emit_def\<close>)
    with True p RestartThen show ?thesis by (simp add: stopCompletes_def)
  next
    case DeactivateAwait
    have "lifecycle_inv (emit [DeactivateResolved] ?s1)"
      using i1 by (simp add: lifecycle_inv_emit_plain)
    with True p DeactivateAwait show ?thesis by (simp add: stopCompletes_def)
  qed
qed

lemma lifecycle_inv_deactivate:
  assumes "lifecycle_inv s"
  shows "lifecycle_inv (snd (deactivate s))"
  using assms by (cases "client s") (simp_all add: deactivate_def lifecycle_inv_clientStop)

lemma lifecycle_inv_step:
  assumes "lifecycle_inv s"
  shows "lifecycle_inv (step quote a s)"
  using assms
  by (cases a)
     (simp_all add: lifecycle_inv_restartLanguageServer lifecycle_inv_stopCompletes
        lifecycle_inv_deactivate)

lemma lifecycle_inv_run:
  assumes "lifecycle_inv s"
  shows "lifecycle_inv (run quote acts s)"
  using assms by (induction acts arbitrary: s) (simp_all add: lifecycle_inv_step)

lemma lifecycle_inv_activated: "lifecycle_inv (activated quote h)"
proof (cases "activate quote h")
  case (Inl e)
  then show ?thesis by (simp add: activated_def lifecycle_inv_initial)
next
  case (Inr s)
  then have st: "startLanguageServer quote h initialState = Inr s" by (simp add: activate_def)
  have "lifecycle_inv s"
    by (rule lifecycle_inv_start [OF lifecycle_inv_initial _ _ st])
       (simp_all add: initialState_def)
  with Inr show ?thesis by (simp add: activated_def)
qed

lemma lifecycle_inv_reachable: "lifecycle_inv (run quote acts (activated quote h))"
  by (rule lifecycle_inv_run [OF lifecycle_inv_activated])

lemma start_projHost:
  "startLanguageServer bracket projHost s =
     Inr (s\<lparr>client := Some (clientsCreated s), clientsCreated := Suc (clientsCreated s),
       trace := trace s @ [ClientNew (clientsCreated s), ClientStart (clientsCreated s),
          Spawn (clientsCreated s) projChild],
       disposableClient := Some (clientsCreated s)\<rparr>)"
  by (simp add: startLanguageServer_def projHost_def buildCommand_noWatchman existsSync_def
        markerPath_def launch_trace serverOptions_def spawnWithBash_def win32_no_match
        directSpawn_def commonOptions_def projChild_def)

lemma activated_projHost:
  "activated bracket projHost =
     \<lparr>client = Some 0, disposableClient = Some 0, clientsCreated = Suc 0, pendingStops = [],
      trace = [ClientNew 0, ClientStart 0, Spawn 0 projChild]\<rparr>"
  by (simp add: activated_def activate_def start_projHost initialState_def)

text \<open>
  C4: when the marker file sorbet/config does not exist under the workspace folder (and the
  options setting is a string), startLanguageServer changes nothing but the record of
  calls, to which it adds one notice of severity Information: no client is constructed or
  stored and nothing is spawned. After activate both variables are still unset.
\<close>

theorem start_without_marker_stays_idle:
  assumes "\<not> existsSync h (markerPath h)" and "commandOptions (settings h) = Some opts"
  shows "startLanguageServer quote h s =
           Inr (s\<lparr>trace := trace s @
                  [Notice Information ''Sorbet config not found. Sorbet server will not be started'']\<rparr>) \<and>
         (\<exists>s'. activate quote h = Inr s' \<and> client s' = None \<and> disposableClient s' = None \<and>
               clientsCreated s' = 0 \<and>
               trace s' =
                 [Notice Information ''Sorbet config not found. Sorbet server will not be started''])"
  using assms
  by (simp add: startLanguageServer_def activate_def buildCommand_def showInformationMessage_def
        emit_def initialState_def)

theorem start_without_marker_stays_idle_witness:
  "\<not> existsSync emptyHost (markerPath emptyHost) \<and>
   commandOptions (settings emptyHost) = Some '''' \<and>
   activate bracket emptyHost =
     Inr \<lparr>client = None, disposableClient = None, clientsCreated = 0, pendingStops = [],
          trace = [Notice Information ''Sorbet config not found. Sorbet server will not be started'']\<rparr>"
proof -
  have a: "\<not> existsSync emptyHost (markerPath emptyHost)"
    by (simp add: existsSync_def emptyHost_def)
  have b: "commandOptions (settings emptyHost) = Some ''''"
    by (simp add: emptyHost_def noWatchmanConfig_def)
  from start_without_marker_stays_idle [OF a b, of bracket initialState]
  have "activate bracket emptyHost =
     Inr (initialState\<lparr>trace := trace initialState @
            [Notice Information ''Sorbet config not found. Sorbet server will not be started'']\<rparr>)"
    by (simp add: activate_def)
  with a b show ?thesis by (simp add: initialState_def)
qed

text \<open>
  C8: in every state reached from activation, deactivate either finds that no client was
  ever constructed, and then returns undefined and changes nothing, or calls stop on the
  stored client and returns its promise; when that handshake completes, the completion is
  followed directly by the fulfilment of the returned promise.
\<close>

theorem deactivate_stops_client_if_any:
  assumes "s = run quote acts (activated quote h)"
  shows "((\<forall>n. ClientNew n \<notin> set (trace s)) \<longrightarrow> deactivate s = (None, s)) \<and>
         ((\<exists>n. ClientNew n \<in> set (trace s)) \<longrightarrow>
            (\<exists>c. client s = Some c \<and>
                 deactivate s =
                   (Some c, s\<lparr>pendingStops := pendingStops s @ [(c, DeactivateAwait)],
                              trace := trace s @ [StopRequested c]\<rparr>) \<and>
                 (\<forall>h'. trace (stopCompletes quote h' (length (pendingStops s)) (snd (deactivate s))) =
                         trace s @ [StopRequested c, StopCompleted c, DeactivateResolved])))"
proof -
  have i: "lifecycle_inv s" unfolding assms by (rule lifecycle_inv_reachable)
  then have cd: "client s = disposableClient s"
    and none: "disposableClient s = None \<longrightarrow> (\<forall>n. ClientNew n \<notin> set (trace s))"
    and some: "disposableClient s \<noteq> None \<longrightarrow> (\<exists>n. ClientNew n \<in> set (trace s))"
    by (simp_all add: lifecycle_inv_def)
  have 1: "(\<forall>n. ClientNew n \<notin> set (trace s)) \<longrightarrow> deactivate s = (None, s)"
    using cd some by (cases "client s") (auto simp add: deactivate_def)
  have 2: "(\<exists>n. ClientNew n \<in> set (trace s)) \<longrightarrow>
            (\<exists>c. client s = Some c \<and>
                 deactivate s =
                   (Some c, s\<lparr>pendingStops := pendingStops s @ [(c, DeactivateAwait)],
                              trace := trace s @ [StopRequested c]\<rparr>) \<and>
                 (\<forall>h'. trace (stopCompletes quote h' (length (pendingStops s)) (snd (deactivate s))) =
                         trace s @ [StopRequested c, StopCompleted c, DeactivateResolved]))"
  proof
    assume "\<exists>n. ClientNew n \<in> set (trace s)"
    with cd none obtain c where c: "client s = Some c" by (cases "client s") auto
    then show "\<exists>c. client s = Some c \<and>
                 deactivate s =
                   (Some c, s\<lparr>pendingStops := pendingStops s @ [(c, DeactivateAwait)],
                              trace := trace s @ [StopRequested c]\<rparr>) \<and>
                 (\<forall>h'. trace (stopCompletes quote h' (length (pendingStops s)) (snd (deactivate s))) =
                         trace s @ [StopRequested c, StopCompleted c, DeactivateResolved])"
      by (simp add: deactivate_def clientStop_def emit_def stopCompletes_def)
  qed
  from 1 2 show ?thesis by blast
qed

theorem deactivate_stops_client_if_any_witness:
  "(\<forall>n. ClientNew n \<notin> set (trace (run bracket [] (activated bracket emptyHost)))) \<and>
   deactivate (run bracket [] (activated bracket emptyHost)) =
     (None, run bracket [] (activated bracket emptyHost)) \<and>
   ClientNew 0 \<in> set (trace (run bracket [] (activated bracket projHost))) \<and>
   (\<exists>c. client (run bracket [] (activated bracket projHost)) = Some c \<and>
        fst (deactivate (run bracket [] (activated bracket projHost))) = Some c \<and>
        trace (stopCompletes bracket projHost
                 (length (pendingStops (run bracket [] (activated bracket projHost))))
                 (snd (deactivate (run bracket [] (activated bracket projHost))))) =
          trace (run bracket [] (activated bracket projHost))
            @ [StopRequested c, StopCompleted c, DeactivateResolved])"
proof -
  let ?e = "run bracket [] (activated bracket emptyHost)"
  let ?p = "run bracket [] (activated bracket projHost)"
  have e: "\<forall>n. ClientNew n \<notin> set (trace ?e)"
    by (simp add: activated_def activate_def startLanguageServer_def emptyHost_def
          buildCommand_noWatchman existsSync_def showInformationMessage_def emit_def
          initialState_def)
  have p: "ClientNew 0 \<in> set (trace ?p)"
    by (simp add: activated_projHost)
  note t1 = deactivate_stops_client_if_any [OF refl, of bracket "[]" emptyHost]
  note t2 = deactivate_stops_client_if_any [OF refl, of bracket "[]" projHost]
  from t1 e have 1: "deactivate ?e = (None, ?e)" by blast
  from t2 p have 2: "\<exists>c. client ?p = Some c \<and>
        fst (deactivate ?p) = Some c \<and>
        trace (stopCompletes bracket projHost (length (pendingStops ?p)) (snd (deactivate ?p))) =
          trace ?p @ [StopRequested c, StopCompleted c, DeactivateResolved]"
    by (metis fst_conv)
  from e 1 p 2 show ?thesis by blast
qed

lemma constructed_snoc: "constructed (tr @ [e]) = constructed tr @ clientOf e"
  by (simp add: constructed_def)

lemma serial_inv_initial: "serial_inv initialState"
  by (simp add: serial_inv_def initialState_def always_before_Nil constructed_def
        waitingRestarts_def)

lemma serial_inv_emit_plain:
  assumes "serial_inv s" and "okSerial (trace s) e" and "clientOf e = []"
  shows "serial_inv (emit [e] s)"
  using assms
  by (auto simp add: serial_inv_def emit_def always_before_snoc constructed_snoc
        waitingRestarts_def)

lemma serial_inv_launch:
  assumes "serial_inv s" and "okSerial (trace s) (ClientNew (clientsCreated s))"
      and "waitingRestarts s = []"
  shows "serial_inv (launchClient quote h cmd env s)"
proof -
  let ?n = "clientsCreated s"
  let ?ch = "fst (serverOptions quote (osPlatform h) (envShell h) cmd env)"
  have a1: "always_before okSerial (trace s @ [ClientNew ?n])"
    using assms by (simp add: serial_inv_def always_before_snoc)
  have a2: "always_before okSerial ((trace s @ [ClientNew ?n]) @ [ClientStart ?n])"
    by (rule always_before_snoc [OF a1]) simp
  have a3: "always_before okSerial (((trace s @ [ClientNew ?n]) @ [ClientStart ?n]) @ [Spawn ?n ?ch])"
    by (rule always_before_snoc [OF a2]) simp
  have c: "constructed (trace s @ [ClientNew ?n, ClientStart ?n, Spawn ?n ?ch]) = [0..<Suc ?n]"
    using assms(1) by (simp add: serial_inv_def constructed_def)
  show ?thesis
    using a3 c assms(3) by (simp add: launch_trace serial_inv_def waitingRestarts_def)
qed

lemma serial_inv_start:
  assumes "serial_inv s" and "okSerial (trace s) (ClientNew (clientsCreated s))"
      and "waitingRestarts s = []"
      and "startLanguageServer quote h s = Inr s'"
  shows "serial_inv s'"
  using start_shape [OF assms(4)] assms(1-3)
  by (auto simp add: serial_inv_launch serial_inv_emit_plain)

lemma serial_inv_resolveRestart: "serial_inv s \<Longrightarrow> serial_inv (resolveRestart s)"
  by (simp add: resolveRestart_def showInformationMessage_def serial_inv_emit_plain)

lemma serial_inv_clientStop_deactivate:
  assumes "serial_inv s"
  shows "serial_inv (clientStop c DeactivateAwait s)"
  using assms
  by (auto simp add: serial_inv_def clientStop_def emit_def always_before_snoc constructed_snoc
        waitingRestarts_def)

lemma serial_inv_clientStop_restart:
  assumes "serial_inv s" and "client s = Some c" and "waitingRestarts s = []"
  shows "serial_inv (clientStop c RestartThen s)"
  using assms
  by (auto simp add: serial_inv_def clientStop_def emit_def always_before_snoc constructed_snoc
        waitingRestarts_def)

lemma serial_inv_restartLanguageServer:
  assumes "serial_inv s" and "waitingRestarts s = []"
  shows "serial_inv (restartLanguageServer quote h s)"
proof (cases "disposableClient s")
  case None
  with assms(1) have "clientsCreated s = 0"
    by (cases "clientsCreated s") (auto simp add: serial_inv_def)
  then have first: "okSerial (trace s) (ClientNew (clientsCreated s))" by simp
  show ?thesis
  proof (cases "startLanguageServer quote h s")
    case (Inl e)
    with None show ?thesis
      using assms(1) by (simp add: restartLanguageServer_def serial_inv_emit_plain)
  next
    case (Inr s')
    have "serial_inv s'" by (rule serial_inv_start [OF assms(1) first assms(2) Inr])
    with None Inr show ?thesis
      by (simp add: restartLanguageServer_def serial_inv_resolveRestart)
  qed
next
  case (Some d)
  with assms(1) have "client s = Some d" by (simp add: serial_inv_def)
  with Some assms show ?thesis
    by (simp add: restartLanguageServer_def serial_inv_clientStop_restart)
qed

lemma filter_single_removed:
  assumes "length (filter P xs) \<le> 1" and "i < length xs" and "P (xs ! i)"
  shows "filter P (take i xs @ drop (Suc i) xs) = []"
proof -
  have "xs = take i xs @ xs ! i # drop (Suc i) xs"
    using assms(2) by (rule id_take_nth_drop)
  then have "filter P xs = filter P (take i xs) @ xs ! i # filter P (drop (Suc i) xs)"
    using assms(3) by (metis filter.simps(2) filter_append)
  with assms(1) show ?thesis by simp
qed

lemma serial_inv_drop_pending:
  assumes "serial_inv s"
  shows "serial_inv (s\<lparr>pendingStops := take i (pendingStops s) @ drop (Suc i) (pendingStops s)\<rparr>)"
proof -
  let ?P = "\<lambda>p. snd p = RestartThen"
  let ?xs = "pendingStops s"
  have sub: "set (filter ?P (take i ?xs @ drop (Suc i) ?xs)) \<subseteq> set (filter ?P ?xs)"
    by (auto dest: in_set_takeD in_set_dropD)
  have "length (filter ?P (take i ?xs)) + length (filter ?P (drop (Suc i) ?xs))
          \<le> length (filter ?P (take i ?xs)) + length (filter ?P (drop i ?xs))"
    by (cases "i < length ?xs") (simp_all add: Cons_nth_drop_Suc [symmetric])
  also have "\<dots> = length (filter ?P ?xs)"
    by (metis append_take_drop_id filter_append length_append)
  finally have len: "length (filter ?P (take i ?xs @ drop (Suc i) ?xs)) \<le> length (filter ?P ?xs)"
    by simp
  show ?thesis
    using assms sub len
    by (auto simp add: serial_inv_def waitingRestarts_def)
qed

lemma serial_inv_restartThen:
  assumes "serial_inv s"
      and "trace s = tr @ [StopCompleted c]"
      and "StopRequested c \<in> set tr"
      and "client s = Some c"
      and "waitingRestarts s = []"
  shows "serial_inv (restartThen quote h s)"
proof -
  from assms(1,4) have d: "disposableClient s = Some c" and n: "clientsCreated s = Suc c"
    by (cases "clientsCreated s"; auto simp add: serial_inv_def)+
  let ?s1 = "emit [Disposed c] s"
  have i1: "serial_inv ?s1" using assms(1) by (simp add: serial_inv_emit_plain)
  have tr1: "trace ?s1 = tr @ [StopCompleted c, Disposed c]"
    using assms(2) by (simp add: emit_def)
  have ok: "okSerial (trace ?s1) (ClientNew (clientsCreated ?s1))"
    using assms(3) tr1 n by (simp add: emit_def)
  have w1: "waitingRestarts ?s1 = []"
    using assms(5) by (simp add: emit_def waitingRestarts_def)
  show ?thesis
  proof (cases "startLanguageServer quote h ?s1")
    case (Inl e)
    with d i1 show ?thesis by (simp add: restartThen_def serial_inv_emit_plain)
  next
    case (Inr s2)
    have "serial_inv s2" by (rule serial_inv_start [OF i1 ok w1 Inr])
    with d Inr show ?thesis by (simp add: restartThen_def serial_inv_resolveRestart)
  qed
qed

lemma serial_inv_stopCompletes:
  assumes "serial_inv s"
  shows "serial_inv (stopCompletes quote h i s)"
proof (cases "i < length (pendingStops s)")
  case False
  with assms show ?thesis by (simp add: stopCompletes_def)
next
  case True
  obtain c cb where p: "pendingStops s ! i = (c, cb)" by (cases "pendingStops s ! i")
  from True p have mem: "(c, cb) \<in> set (pendingStops s)" by (metis nth_mem)
  let ?s0 = "s\<lparr>pendingStops := take i (pendingStops s) @ drop (Suc i) (pendingStops s)\<rparr>"
  let ?s1 = "emit [StopCompleted c] ?s0"
  have i0: "serial_inv ?s0" by (rule serial_inv_drop_pending [OF assms])
  have i1: "serial_inv ?s1" using i0 by (simp add: serial_inv_emit_plain)
  show ?thesis
  proof (cases cb)
    case RestartThen
    with mem have "(c, cb) \<in> set (waitingRestarts s)" by (simp add: waitingRestarts_def)
    with assms have cur: "client s = Some c" and req: "StopRequested c \<in> set (trace s)"
      by (auto simp add: serial_inv_def)
    have one: "length (filter (\<lambda>p. snd p = RestartThen) (pendingStops s)) \<le> 1"
      using assms by (simp add: serial_inv_def waitingRestarts_def)
    have none: "waitingRestarts ?s1 = []"
      using filter_single_removed [OF one True] p RestartThen
      by (simp add: waitingRestarts_def emit_def)
    have "serial_inv (restartThen quote h ?s1)"
      by (rule serial_inv_restartThen [OF i1 _ req _ none])
         (use cur in \<open>simp_all add: emit_def\<close>)
    with True p RestartThen show ?thesis by (simp add: stopCompletes_def)
  next
    case DeactivateAwait
    have "serial_inv (emit [DeactivateResolved] ?s1)"
      using i1 by (simp add: serial_inv_emit_plain)
    with True p DeactivateAwait show ?thesis by (simp add: stopCompletes_def)
  qed
qed

lemma serial_inv_deactivate:
  assumes "serial_inv s"
  shows "serial_inv (snd (deactivate s))"
  using assms
  by (cases "client s") (simp_all add: deactivate_def serial_inv_clientStop_deactivate)

lemma serial_inv_step:
  assumes "serial_inv s" and "allowed a s"
  shows "serial_inv (step quote a s)"
  using assms
  by (cases a)
     (simp_all add: serial_inv_restartLanguageServer serial_inv_stopCompletes
        serial_inv_deactivate)

lemma serial_inv_run:
  assumes "serial_inv s" and "serial quote acts s"
  shows "serial_inv (run quote acts s)"
  using assms by (induction acts arbitrary: s) (simp_all add: serial_inv_step)

lemma serial_inv_activated: "serial_inv (activated quote h)"
proof (cases "activate quote h")
  case (Inl e)
  then show ?thesis by (simp add: activated_def serial_inv_initial)
next
  case (Inr s)
  then have st: "startLanguageServer quote h initialState = Inr s" by (simp add: activate_def)
  have "serial_inv s"
    by (rule serial_inv_start [OF serial_inv_initial _ _ st])
       (simp_all add: initialState_def waitingRestarts_def)
  with Inr show ?thesis by (simp add: activated_def)
qed

lemmas lifecycle_eval =
  restartLanguageServer_def clientStop_def emit_def stopCompletes_def restartThen_def
  start_projHost resolveRestart_def showInformationMessage_def waitingRestarts_def

lemma serialRestarts_trace:
  "trace (run bracket serialRestarts (activated bracket projHost)) =
     [ClientNew 0, ClientStart 0, Spawn 0 projChild,
      StopRequested 0, StopCompleted 0, Disposed 0,
      ClientNew 1, ClientStart 1, Spawn 1 projChild,
      RestartResolved, Notice Information ''Sorbet server restarted.'',
      StopRequested 1, StopCompleted 1, Disposed 1,
      ClientNew 2, ClientStart 2, Spawn 2 projChild,
      RestartResolved, Notice Information ''Sorbet server restarted.'']"
  by (simp add: serialRestarts_def activated_projHost lifecycle_eval numeral_2_eq_2)

lemma serialRestarts_serial: "serial bracket serialRestarts (activated bracket projHost)"
  by (simp add: serialRestarts_def activated_projHost lifecycle_eval)

lemma reentrantRestarts_trace:
  "trace (run bracket reentrantRestarts (activated bracket projHost)) =
     [ClientNew 0, ClientStart 0, Spawn 0 projChild,
      StopRequested 0, StopRequested 0, StopCompleted 0, Disposed 0,
      ClientNew 1, ClientStart 1, Spawn 1 projChild,
      RestartResolved, Notice Information ''Sorbet server restarted.'',
      StopCompleted 0, Disposed 1,
      ClientNew 2, ClientStart 2, Spawn 2 projChild,
      RestartResolved, Notice Information ''Sorbet server restarted.'']"
  by (simp add: reentrantRestarts_def activated_projHost lifecycle_eval numeral_2_eq_2)

text \<open>
  C1 as stated fails when the restart command is run twice before the first stop
  handshake completes: both restarts are invoked while client 0 is stored; the callback
  that runs second disposes the disposable of client 1 and constructs and spawns client 2,
  although no stop of client 1 was ever requested or completed.
\<close>

theorem reentrant_restart_counterexample:
  "client (activated bracket projHost) = Some 0 \<and>
   \<not> serial bracket reentrantRestarts (activated bracket projHost) \<and>
   trace (run bracket reentrantRestarts (activated bracket projHost)) =
     [ClientNew 0, ClientStart 0, Spawn 0 projChild,
      StopRequested 0, StopRequested 0, StopCompleted 0, Disposed 0,
      ClientNew 1, ClientStart 1, Spawn 1 projChild,
      RestartResolved, Notice Information ''Sorbet server restarted.'',
      StopCompleted 0, Disposed 1,
      ClientNew 2, ClientStart 2, Spawn 2 projChild,
      RestartResolved, Notice Information ''Sorbet server restarted.''] \<and>
   StopRequested 1 \<notin> set (trace (run bracket reentrantRestarts (activated bracket projHost))) \<and>
   StopCompleted 1 \<notin> set (trace (run bracket reentrantRestarts (activated bracket projHost)))"
proof -
  have a: "client (activated bracket projHost) = Some 0"
    by (simp add: activated_projHost)
  have b: "\<not> serial bracket reentrantRestarts (activated bracket projHost)"
    by (simp add: reentrantRestarts_def activated_projHost lifecycle_eval)
  show ?thesis
    using a b by (simp add: reentrantRestarts_trace)
qed

text \<open>
  C1, as amended: under serial use of the restart command, in every state reached from
  activation: a restart invoked while a client exists only requests the stop of the client
  constructed last; the clients are numbered in the order of their construction; every
  client but the first is constructed directly after the completion of the stop handshake
  (requested earlier) of the client constructed just before it and after the dispose of
  that client's disposable; and every spawn comes directly after the construction and
  start of its client.
\<close>

theorem serial_restart_stop_precedes_start:
  assumes "serial quote acts (activated quote h)"
      and "s = run quote acts (activated quote h)"
  shows "(\<forall>h' c. clientsCreated s = Suc c \<longrightarrow>
            restartLanguageServer quote h' s =
              s\<lparr>pendingStops := pendingStops s @ [(c, RestartThen)],
                trace := trace s @ [StopRequested c]\<rparr>) \<and>
         constructed (trace s) = [0..<clientsCreated s] \<and>
         (\<forall>pre n post. trace s = pre @ ClientNew (Suc n) # post \<longrightarrow>
            (\<exists>pre'. pre = pre' @ [StopCompleted n, Disposed n] \<and>
               StopRequested n \<in> set pre')) \<and>
         (\<forall>pre n child post. trace s = pre @ Spawn n child # post \<longrightarrow>
            (\<exists>pre'. pre = pre' @ [ClientNew n, ClientStart n]))"
proof -
  have i: "serial_inv s"
    unfolding assms(2) by (rule serial_inv_run [OF serial_inv_activated assms(1)])
  from i [unfolded serial_inv_def]
  have cd: "client s = disposableClient s"
    and cur: "client s = (case clientsCreated s of 0 \<Rightarrow> None | Suc c \<Rightarrow> Some c)"
    and con: "constructed (trace s) = [0..<clientsCreated s]"
    and ab: "always_before okSerial (trace s)"
    by blast+
  have 1: "\<forall>h' c. clientsCreated s = Suc c \<longrightarrow>
            restartLanguageServer quote h' s =
              s\<lparr>pendingStops := pendingStops s @ [(c, RestartThen)],
                trace := trace s @ [StopRequested c]\<rparr>"
  proof (intro allI impI)
    fix h' c
    assume n: "clientsCreated s = Suc c"
    with cur have c: "client s = Some c" by simp
    with cd have d: "disposableClient s = Some c" by simp
    show "restartLanguageServer quote h' s =
            s\<lparr>pendingStops := pendingStops s @ [(c, RestartThen)],
              trace := trace s @ [StopRequested c]\<rparr>"
      by (simp add: restartLanguageServer_def clientStop_def emit_def c d)
  qed
  have 2: "\<forall>pre n post. trace s = pre @ ClientNew (Suc n) # post \<longrightarrow>
            (\<exists>pre'. pre = pre' @ [StopCompleted n, Disposed n] \<and>
               StopRequested n \<in> set pre')"
  proof (intro allI impI)
    fix pre n post
    assume tr: "trace s = pre @ ClientNew (Suc n) # post"
    from ab [unfolded always_before_def] tr have "okSerial pre (ClientNew (Suc n))" by blast
    then show "\<exists>pre'. pre = pre' @ [StopCompleted n, Disposed n] \<and>
               StopRequested n \<in> set pre'" by simp
  qed
  have 3: "\<forall>pre n child post. trace s = pre @ Spawn n child # post \<longrightarrow>
            (\<exists>pre'. pre = pre' @ [ClientNew n, ClientStart n])"
  proof (intro allI impI)
    fix pre n child post
    assume tr: "trace s = pre @ Spawn n child # post"
    from ab [unfolded always_before_def] tr have "okSerial pre (Spawn n child)" by blast
    then show "\<exists>pre'. pre = pre' @ [ClientNew n, ClientStart n]" by simp
  qed
  from 1 con 2 3 show ?thesis by blast
qed

theorem serial_restart_stop_precedes_start_witness:
  "serial bracket serialRestarts (activated bracket projHost) \<and>
   trace (run bracket serialRestarts (activated bracket projHost)) =
     [ClientNew 0, ClientStart 0, Spawn 0 projChild,
      StopRequested 0, StopCompleted 0, Disposed 0,
      ClientNew 1, ClientStart 1, Spawn 1 projChild,
      RestartResolved, Notice Information ''Sorbet server restarted.'',
      StopRequested 1, StopCompleted 1, Disposed 1]
     @ ClientNew (Suc 1)
     # [ClientStart 2, Spawn 2 projChild,
        RestartResolved, Notice Information ''Sorbet server restarted.''] \<and>
   (\<exists>pre'. [ClientNew 0, ClientStart 0, Spawn 0 projChild,
            StopRequested 0, StopCompleted 0, Disposed 0,
            ClientNew 1, ClientStart 1, Spawn 1 projChild,
            RestartResolved, Notice Information ''Sorbet server restarted.'',
            StopRequested 1, StopCompleted 1, Disposed 1]
           = pre' @ [StopCompleted 1, Disposed 1] \<and>
         StopRequested 1 \<in> set pre') \<and>
   constructed (trace (run bracket serialRestarts (activated bracket projHost))) = [0, 1, 2]"
proof -
  let ?s = "run bracket serialRestarts (activated bracket projHost)"
  let ?pre = "[ClientNew 0, ClientStart 0, Spawn 0 projChild,
               StopRequested 0, StopCompleted 0, Disposed 0,
               ClientNew 1, ClientStart 1, Spawn 1 projChild,
               RestartResolved, Notice Information ''Sorbet server restarted.'',
               StopRequested 1, StopCompleted 1, Disposed 1]"
  let ?post = "[ClientStart 2, Spawn 2 projChild,
                RestartResolved, Notice Information ''Sorbet server restarted.'']"
  have tr: "trace ?s = ?pre @ ClientNew (Suc 1) # ?post"
    unfolding serialRestarts_trace by simp
  note t = serial_restart_stop_precedes_start [OF serialRestarts_serial refl]
  from t have "\<forall>pre n post. trace ?s = pre @ ClientNew (Suc n) # post \<longrightarrow>
            (\<exists>pre'. pre = pre' @ [StopCompleted n, Disposed n] \<and>
               StopRequested n \<in> set pre')"
    by blast
  with tr have ex: "\<exists>pre'. ?pre = pre' @ [StopCompleted 1, Disposed 1] \<and>
               StopRequested 1 \<in> set pre'"
    by blast
  have con: "constructed (trace ?s) = [0, 1, 2]"
    unfolding serialRestarts_trace by (simp add: constructed_def)
  from serialRestarts_serial tr ex con show ?thesis by blast
qed

end
